theory Spec2Isabelle
  imports Main "HOL-Library.Word" "HOL-Library.FSet" "HOL-Library.Sublist"
begin

section \<open>Python values\<close>

text \<open>
  The arguments of the three functions of \<^verbatim>\<open>py7z.py\<close> are Python \<^verbatim>\<open>str\<close> values
  (paths, passwords, the volume spec); they are modelled as \<^typ>\<open>string\<close>, each
  character standing for the code point of the same number (0 to 255). The captured
  standard output of the child process is a byte string; its decoding is a \<^verbatim>\<open>str\<close>
  that may hold code points above 255 (the euro sign of code page 1252), so decoded
  text is a list of code points.
\<close>

type_synonym bytes = "8 word list"
type_synonym ustring = "nat list"

definition utext :: "string \<Rightarrow> ustring" where
  "utext s = map of_char s"

text \<open>
  \<^verbatim>\<open>verbose\<close> (all three functions) and \<^verbatim>\<open>overwrite\<close> (of \<^verbatim>\<open>archive_extract\<close>)
  are not typed by the source: the docstrings ask for an int and for
  "True or False or advanced options". They are modelled as a small universe of Python
  values.
\<close>

datatype pyval = PyNone | PyBool bool | PyInt int | PyStr string

fun str_nat :: "nat \<Rightarrow> string" where
  "str_nat n = (if n < 10 then [''0123456789'' ! n]
                else str_nat (n div 10) @ [''0123456789'' ! (n mod 10)])"

declare str_nat.simps [simp del]

definition str_int :: "int \<Rightarrow> string" where
  "str_int i = (if i < 0 then CHR ''-'' # str_nat (nat (- i)) else str_nat (nat i))"

text \<open>What an f-string writes for \<^verbatim>\<open>{v}\<close>: \<^verbatim>\<open>format(v, '')\<close>, which is \<^verbatim>\<open>str(v)\<close>.\<close>

fun py_format :: "pyval \<Rightarrow> string" where
  "py_format PyNone = ''None''"
| "py_format (PyBool b) = (if b then ''True'' else ''False'')"
| "py_format (PyInt i) = str_int i"
| "py_format (PyStr s) = s"

text \<open>
  \<^verbatim>\<open>str.isspace\<close> on the code points below 256; \<^verbatim>\<open>str.strip()\<close> and
  \<^verbatim>\<open>str.split()\<close> without arguments use the same class of characters.
\<close>

definition py_isspace :: "char \<Rightarrow> bool" where
  "py_isspace c = (of_char c \<in> {9, 10, 11, 12, 13, 28, 29, 30, 31, 32, 133, 160 :: nat})"

definition strip :: "string \<Rightarrow> string" where
  "strip s = rev (dropWhile py_isspace (rev (dropWhile py_isspace s)))"

text \<open>
  \<^verbatim>\<open>s.split()\<close>: the maximal runs of non-whitespace characters, in order; \<open>cur\<close>
  is the token being read.
\<close>

fun split_from :: "string \<Rightarrow> string \<Rightarrow> string list" where
  "split_from cur [] = (if cur = [] then [] else [cur])"
| "split_from cur (c # cs) =
     (if py_isspace c then (if cur = [] then split_from [] cs else cur # split_from [] cs)
      else split_from (cur @ [c]) cs)"

definition split :: "string \<Rightarrow> string list" where
  "split s = split_from [] s"


section \<open>Decoding code page 1252\<close>

text \<open>
  \<^verbatim>\<open>bytes.decode('cp1252')\<close>: bytes below \<^verbatim>\<open>0x80\<close> and from \<^verbatim>\<open>0xA0\<close> on decode to the
  code point of the same number, the block \<^verbatim>\<open>0x80..0x9F\<close> goes through the table of
  Python's \<^verbatim>\<open>encodings/cp1252.py\<close>, and the five bytes the table leaves undefined
  raise \<^verbatim>\<open>UnicodeDecodeError\<close>.
\<close>

definition cp1252_high :: "(8 word \<times> nat) list" where
  "cp1252_high =
    [(0x80, 0x20AC), (0x82, 0x201A), (0x83, 0x0192), (0x84, 0x201E), (0x85, 0x2026),
     (0x86, 0x2020), (0x87, 0x2021), (0x88, 0x02C6), (0x89, 0x2030), (0x8A, 0x0160),
     (0x8B, 0x2039), (0x8C, 0x0152), (0x8E, 0x017D), (0x91, 0x2018), (0x92, 0x2019),
     (0x93, 0x201C), (0x94, 0x201D), (0x95, 0x2022), (0x96, 0x2013), (0x97, 0x2014),
     (0x98, 0x02DC), (0x99, 0x2122), (0x9A, 0x0161), (0x9B, 0x203A), (0x9C, 0x0153),
     (0x9E, 0x017E), (0x9F, 0x0178)]"

definition decode_byte :: "8 word \<Rightarrow> nat option" where
  "decode_byte b =
     (if b < 0x80 \<or> 0xA0 \<le> b then Some (unat b) else map_of cp1252_high b)"

fun decode_cp1252 :: "bytes \<Rightarrow> ustring option" where
  "decode_cp1252 [] = Some []"
| "decode_cp1252 (b # bs) =
     (case decode_byte b of
        None \<Rightarrow> None
      | Some c \<Rightarrow> (case decode_cp1252 bs of None \<Rightarrow> None | Some cs \<Rightarrow> Some (c # cs)))"


section \<open>The environment of a call\<close>

text \<open>
  What a call reads from outside the module. \<open>EXE_PATH\<close> is the module constant
  resolved at import. \<open>abspath\<close>, \<open>basename\<close>, \<open>isdir\<close> and \<open>isfile\<close> are the functions
  of \<^verbatim>\<open>os.path\<close> on the host (they depend on the platform, the current directory and
  the file system). \<open>run\<close> is the child process: what \<^verbatim>\<open>subprocess\<close> obtains when
  it is given an argument vector.
\<close>

datatype child = Exited int bytes | NotStarted

record os =
  EXE_PATH :: string
  abspath :: "string \<Rightarrow> string"
  basename :: "string \<Rightarrow> string"
  isdir :: "string \<Rightarrow> bool"
  isfile :: "string \<Rightarrow> bool"
  run :: "string list \<Rightarrow> child"

text \<open>
  Every \<^verbatim>\<open>raise\<close> and every failing \<^verbatim>\<open>assert\<close> of the source is an error value
  (assertions are modelled as enabled, the interpreter's default). \<open>CalledProcessError\<close>
  carries the exit status; \<open>OSError\<close> stands for a child that could not be started.
\<close>

datatype error =
    ValueError string
  | AssertionError ustring
  | NotImplementedError string
  | OSError
  | CalledProcessError int
  | UnicodeDecodeError

text \<open>
  The outcome of a call: the argument vectors handed to \<^verbatim>\<open>subprocess.check_output\<close>
  during the call, in order, and what the call returns or raises.
\<close>

record outcome =
  invoked :: "string list list"
  result :: "error + ustring"

definition raised :: "error \<Rightarrow> outcome" where
  "raised e = \<lparr>invoked = [], result = Inl e\<rparr>"

definition success_marker :: ustring where
  "success_marker = utext ''Everything is Ok''"

text \<open>
  The last two statements of each of the three functions:
  \<^verbatim>\<open>
  ret_val = subprocess.check_output(command).decode('cp1252')
  assert 'Everything is Ok' in ret_val, f'something went wrong: {ret_val}'
  return ret_val
  \<close>
  \<^verbatim>\<open>check_output\<close> raises \<^verbatim>\<open>CalledProcessError\<close> when the exit status is not zero,
  and returns the captured standard output otherwise.
\<close>

definition check_output :: "os \<Rightarrow> string list \<Rightarrow> error + bytes" where
  "check_output env command =
     (case run env command of
        NotStarted \<Rightarrow> Inl OSError
      | Exited status out \<Rightarrow> if status \<noteq> 0 then Inl (CalledProcessError status) else Inr out)"

definition invoke :: "os \<Rightarrow> string list \<Rightarrow> outcome" where
  "invoke env command =
     \<lparr>invoked = [command],
      result =
        (case check_output env command of
           Inl e \<Rightarrow> Inl e
         | Inr out \<Rightarrow>
             (case decode_cp1252 out of
                None \<Rightarrow> Inl UnicodeDecodeError
              | Some ret_val \<Rightarrow>
                  if sublist success_marker ret_val then Inr ret_val
                  else Inl (AssertionError (utext ''something went wrong: '' @ ret_val))))\<rparr>"


section \<open>archive\_test\<close>

definition DEL :: string where
  "DEL = [CHR 0x7F]"

text \<open>Lines 131 to 151: everything before the child is started.\<close>

definition test_command :: "os \<Rightarrow> string \<Rightarrow> string option \<Rightarrow> pyval \<Rightarrow> error + string list" where
  "test_command env archive password verbose =
     (let archive_path = abspath env archive;
          password = (case password of None \<Rightarrow> DEL | Some p \<Rightarrow> p)
      in if \<not> length password > 0
         then Inl (AssertionError (utext ''password must be at least one character long''))
         else if CHR 0x22 \<in> set password
         then Inl (NotImplementedError ''double-quote not supported'')
         else Inr [EXE_PATH env,
                   ''t'',
                   archive_path,
                   ''-p'' @ password,
                   ''-bb'' @ py_format verbose,
                   ''-bt''])"

definition archive_test :: "os \<Rightarrow> string \<Rightarrow> string option \<Rightarrow> pyval \<Rightarrow> outcome" where
  "archive_test env archive password verbose =
     (case test_command env archive password verbose of
        Inl e \<Rightarrow> raised e
      | Inr command \<Rightarrow> invoke env command)"


section \<open>archive\_create\<close>

text \<open>
  The dictionary \<^verbatim>\<open>seen\<close> maps a basename to the set of the paths given with it. A
  Python dictionary iterates in insertion order, so it is an association list in
  the order of first insertion; its values are finite sets.
  \<^verbatim>\<open>seen.setdefault(k, set()).add(v)\<close>:
\<close>

fun setdefault_add :: "(string \<times> string fset) list \<Rightarrow> string \<Rightarrow> string \<Rightarrow> (string \<times> string fset) list" where
  "setdefault_add [] k v = [(k, {|v|})]"
| "setdefault_add ((k', vs) # seen) k v =
     (if k' = k then (k', finsert v vs) # seen else (k', vs) # setdefault_add seen k v)"

text \<open>
  The loop over \<^verbatim>\<open>seen.items()\<close>: the first entry with more than one path raises
  \<^verbatim>\<open>ValueError(item_name)\<close>. (The lines it prints to the standard error stream
  before raising are not modelled.)
\<close>

fun first_conflict :: "(string \<times> string fset) list \<Rightarrow> string option" where
  "first_conflict [] = None"
| "first_conflict ((item_name, item_paths) # seen) =
     (if fcard item_paths > 1 then Some item_name else first_conflict seen)"

text \<open>Lines 93 to 96: the volume flags.\<close>

definition add_volumes :: "string list \<Rightarrow> string option \<Rightarrow> error + string list" where
  "add_volumes command volumes =
     (case volumes of
        None \<Rightarrow> Inr command
      | Some v \<Rightarrow>
          if \<not> length v > 0 then Inl (AssertionError [])
          else Inr (command @ map (\<lambda>size. ''-v'' @ size) (split (strip v))))"

text \<open>Lines 99 to 109: the password flag and the header-encryption flag.\<close>

definition add_password :: "string list \<Rightarrow> string option \<Rightarrow> bool \<Rightarrow> error + string list" where
  "add_password command password encrypt_headers =
     (case password of
        None \<Rightarrow> Inr command
      | Some p \<Rightarrow>
          if \<not> length p > 0
          then Inl (AssertionError (utext ''password must be at least one character long''))
          else if CHR 0x22 \<in> set p
          then Inl (NotImplementedError ''double-quote not supported'')
          else Inr (command @ [''-p'' @ p] @ (if encrypt_headers then [''-mhe''] else [])))"

text \<open>Lines 43 to 112: everything before the child is started.\<close>

definition create_command ::
  "os \<Rightarrow> string list \<Rightarrow> string \<Rightarrow> string option \<Rightarrow> bool \<Rightarrow> bool \<Rightarrow> pyval \<Rightarrow> string option
     \<Rightarrow> error + string list" where
  "create_command env files_and_folders archive password encrypt_headers overwrite verbose volumes =
     (let archive_path = abspath env archive;
          todo_paths = map (abspath env) files_and_folders;
          seen = foldl (\<lambda>seen item_path. setdefault_add seen (basename env item_path) item_path)
                   [] files_and_folders
      in case first_conflict seen of
           Some item_name \<Rightarrow> Inl (ValueError item_name)
         | None \<Rightarrow>
             if isdir env archive_path
             then Inl (AssertionError (utext ''dir already exists at output path''))
             else if \<not> (overwrite \<or> \<not> isfile env archive_path)
             then Inl (AssertionError (utext ''file already exists at output path''))
             else
               let command = [EXE_PATH env,
                              ''a'',
                              archive_path,
                              ''-t7z'',
                              ''-m0=lzma2'',
                              ''-mx=9'',
                              ''-bb'' @ py_format verbose,
                              ''-bt''];
                   command = (if overwrite then command @ [''-aoa''] else command)
               in (case add_volumes command volumes of
                     Inl e \<Rightarrow> Inl e
                   | Inr command \<Rightarrow>
                       (case add_password command password encrypt_headers of
                          Inl e \<Rightarrow> Inl e
                        | Inr command \<Rightarrow> Inr (command @ todo_paths))))"

definition archive_create ::
  "os \<Rightarrow> string list \<Rightarrow> string \<Rightarrow> string option \<Rightarrow> bool \<Rightarrow> bool \<Rightarrow> pyval \<Rightarrow> string option
     \<Rightarrow> outcome" where
  "archive_create env files_and_folders archive password encrypt_headers overwrite verbose volumes =
     (case create_command env files_and_folders archive password encrypt_headers overwrite
             verbose volumes of
        Inl e \<Rightarrow> raised e
      | Inr command \<Rightarrow> invoke env command)"


section \<open>archive\_extract\<close>

text \<open>The characters of the string literal of line 190: \<^verbatim>\<open>\ / : * ? " < > |\<close>.\<close>

definition reserved :: string where
  "reserved = [CHR 0x5C, CHR ''/'', CHR '':'', CHR ''*'', CHR ''?'', CHR 0x22,
               CHR ''<'', CHR ''>'', CHR ''|'']"

text \<open>
  Lines 197 to 200: \<^verbatim>\<open>overwrite is True\<close> and \<^verbatim>\<open>overwrite is False\<close> hold of the two
  Booleans only.
\<close>

definition overwrite_mode :: "pyval \<Rightarrow> pyval" where
  "overwrite_mode overwrite =
     (if overwrite = PyBool True then PyStr ''a''
      else if overwrite = PyBool False then PyStr ''s''
      else overwrite)"

text \<open>Lines 173 to 217: everything before the child is started.\<close>

definition extract_command ::
  "os \<Rightarrow> string \<Rightarrow> string option \<Rightarrow> string option \<Rightarrow> bool \<Rightarrow> pyval \<Rightarrow> pyval
     \<Rightarrow> error + string list" where
  "extract_command env archive into_dir password flat overwrite verbose =
     (let archive_path = abspath env archive
      in if \<not> isfile env archive_path
         then Inl (AssertionError (utext ''archive does not exist at provided path''))
         else
           let password = (case password of None \<Rightarrow> DEL | Some p \<Rightarrow> p)
           in if \<not> length password > 0
              then Inl (AssertionError (utext ''password must be at least one character long''))
              else
                let into_dir = (case into_dir of None \<Rightarrow> ''.'' | Some d \<Rightarrow> d);
                    into_dir = abspath env (strip into_dir)
                in if \<not> length into_dir > 0
                   then Inl (AssertionError
                          (utext ''output dir name must be at least one character long''))
                   else if \<not> list_all (\<lambda>char. char \<notin> set (basename env into_dir)) reserved
                   then Inl (AssertionError (utext ''invalid dir name''))
                   else if isfile env into_dir
                   then Inl (AssertionError
                          (utext ''file exists at output dir location, cannot create folder''))
                   else if CHR 0x22 \<in> set password
                   then Inl (NotImplementedError ''double-quote not supported'')
                   else
                     let overwrite = overwrite_mode overwrite
                     in if overwrite \<notin> {PyStr ''a'', PyStr ''s'', PyStr ''u'', PyStr ''t''}
                        then Inl (AssertionError [])
                        else Inr [EXE_PATH env,
                                  if flat then ''e'' else ''x'',
                                  ''-o'' @ into_dir,
                                  ''-p'' @ password,
                                  ''-ao'' @ py_format overwrite,
                                  ''-bb'' @ py_format verbose,
                                  ''-bt'',
                                  archive_path])"

definition archive_extract ::
  "os \<Rightarrow> string \<Rightarrow> string option \<Rightarrow> string option \<Rightarrow> bool \<Rightarrow> pyval \<Rightarrow> pyval \<Rightarrow> outcome" where
  "archive_extract env archive into_dir password flat overwrite verbose =
     (case extract_command env archive into_dir password flat overwrite verbose of
        Inl e \<Rightarrow> raised e
      | Inr command \<Rightarrow> invoke env command)"


section \<open>A sample host\<close>

text \<open>
  The worked examples below run on a Windows host whose current directory is
  \<^verbatim>\<open>C:\work\<close>. Paths are written with \<^verbatim>\<open>/\<close> and turned into Windows paths by
  \<open>win\<close>. The two path functions are \<^verbatim>\<open>ntpath.abspath\<close> and \<^verbatim>\<open>ntpath.basename\<close>
  restricted to the paths of the examples: the empty path and \<^verbatim>\<open>.\<close> (both resolve to the
  current directory), paths with a drive letter (already absolute) and plain relative
  names (joined to the current directory); no \<^verbatim>\<open>..\<close> components and no UNC paths.
\<close>

definition win :: "string \<Rightarrow> string" where
  "win p = map (\<lambda>c. if c = CHR ''/'' then CHR 0x5C else c) p"

definition has_drive :: "string \<Rightarrow> bool" where
  "has_drive p = (case p of _ # c # _ \<Rightarrow> c = CHR '':'' | _ \<Rightarrow> False)"

definition nt_abspath :: "string \<Rightarrow> string \<Rightarrow> string" where
  "nt_abspath cwd p =
     (if p = [] \<or> p = ''.'' then cwd
      else if has_drive p then p
      else cwd @ [CHR 0x5C] @ p)"

definition nt_basename :: "string \<Rightarrow> string" where
  "nt_basename p =
     (let r = (if has_drive p then drop 2 p else p)
      in rev (takeWhile (\<lambda>c. c \<noteq> CHR 0x5C \<and> c \<noteq> CHR ''/'') (rev r)))"

text \<open>
  \<open>host dirs files proc\<close>: the directories and the regular files that exist, and what
  the archiver does when it is started.
\<close>

definition host :: "string list \<Rightarrow> string list \<Rightarrow> child \<Rightarrow> os" where
  "host dirs files proc =
     \<lparr>EXE_PATH = win ''C:/py7z/7-zip/x64/7z.exe'',
      abspath = nt_abspath (win ''C:/work''),
      basename = nt_basename,
      isdir = (\<lambda>p. p \<in> set dirs),
      isfile = (\<lambda>p. p \<in> set files),
      run = (\<lambda>command. proc)\<rparr>"

definition ascii :: "string \<Rightarrow> bytes" where
  "ascii s = map of_char s"


section \<open>Outcomes\<close>

lemma invoked_raised [simp]: "invoked (raised e) = []"
  by (simp add: raised_def)

lemma result_raised [simp]: "result (raised e) = Inl e"
  by (simp add: raised_def)

lemma invoked_invoke [simp]: "invoked (invoke env command) = [command]"
  by (simp add: invoke_def)

lemma result_invoke_Inr:
  "result (invoke env command) = Inr t \<longleftrightarrow>
     (\<exists>out. run env command = Exited 0 out \<and> decode_cp1252 out = Some t
        \<and> sublist success_marker t)"
  by (auto simp: invoke_def check_output_def split: child.splits option.splits)

lemma result_invoke_nonzero:
  "run env command = Exited status out \<Longrightarrow> status \<noteq> 0 \<Longrightarrow>
     result (invoke env command) = Inl (CalledProcessError status)"
  by (simp add: invoke_def check_output_def)

lemma call_returns_iff:
  assumes "r = (case c of Inl e \<Rightarrow> raised e | Inr command \<Rightarrow> invoke env command)"
  shows "result r = Inr t \<longleftrightarrow>
     (\<exists>command out. invoked r = [command] \<and> run env command = Exited 0 out
        \<and> decode_cp1252 out = Some t \<and> sublist success_marker t)"
  using assms by (cases c) (auto simp: result_invoke_Inr)

lemma call_fails_on_nonzero:
  assumes "r = (case c of Inl e \<Rightarrow> raised e | Inr command \<Rightarrow> invoke env command)"
    and "invoked r = [command]" and "run env command = Exited status out" and "status \<noteq> 0"
  shows "result r = Inl (CalledProcessError status)"
  using assms by (cases c) (auto simp: result_invoke_nonzero)


text \<open>The unfolding rules that evaluate a call on the sample host.\<close>

lemmas sample_eval = host_def win_def nt_abspath_def nt_basename_def has_drive_def ascii_def utext_def
  success_marker_def decode_byte_def cp1252_high_def sublist_code(3) py_isspace_def strip_def split_def
  str_int_def str_nat.simps test_command_def archive_test_def invoke_def check_output_def raised_def
  create_command_def archive_create_def extract_command_def archive_extract_def add_volumes_def add_password_def
  overwrite_mode_def reserved_def DEL_def fcard_finsert_if Let_def


section \<open>The dictionary of basenames\<close>

lemma map_of_setdefault_add:
  "map_of (setdefault_add seen k v) =
     (map_of seen)(k \<mapsto> finsert v (case map_of seen k of None \<Rightarrow> {||} | Some vs \<Rightarrow> vs))"
  by (induction seen k v rule: setdefault_add.induct) (auto simp: fun_eq_iff)

lemma keys_setdefault_add:
  "fst ` set (setdefault_add seen k v) = insert k (fst ` set seen)"
  by (induction seen k v rule: setdefault_add.induct) auto

lemma distinct_setdefault_add:
  "distinct (map fst seen) \<Longrightarrow> distinct (map fst (setdefault_add seen k v))"
  by (induction seen k v rule: setdefault_add.induct) (auto simp: keys_setdefault_add)

lemma distinct_seen:
  "distinct (map fst (foldl (\<lambda>seen item_path. setdefault_add seen (bn item_path) item_path) [] ps))"
  by (induction ps rule: rev_induct) (auto simp: distinct_setdefault_add)

lemma map_of_seen:
  "map_of (foldl (\<lambda>seen item_path. setdefault_add seen (bn item_path) item_path) [] ps) k =
     (if \<exists>p \<in> set ps. bn p = k then Some (ffilter (\<lambda>p. bn p = k) (fset_of_list ps)) else None)"
proof (induction ps rule: rev_induct)
  case Nil
  show ?case by simp
next
  case (snoc p ps)
  show ?case
    by (cases "bn p = k") (auto simp: map_of_setdefault_add snoc fset_of_list_elem)
qed

lemma first_conflict_Some:
  "first_conflict seen = Some k \<Longrightarrow> \<exists>vs. (k, vs) \<in> set seen \<and> fcard vs > 1"
  by (induction seen rule: first_conflict.induct) (auto split: if_splits)

lemma first_conflict_None:
  "first_conflict seen = None \<longleftrightarrow> (\<forall>(k, vs) \<in> set seen. fcard vs \<le> 1)"
  by (induction seen rule: first_conflict.induct) auto

lemma fcard_gt1: "fcard vs > 1 \<longleftrightarrow> (\<exists>x y. x |\<in>| vs \<and> y |\<in>| vs \<and> x \<noteq> y)"
proof -
  have "card (fset vs) \<le> Suc 0 \<longleftrightarrow> (\<forall>a\<in>fset vs. \<forall>b\<in>fset vs. a = b)"
    by (rule card_le_Suc0_iff_eq) simp
  then show ?thesis
    by (auto simp: fcard.rep_eq not_le [symmetric])
qed



section \<open>When a call returns\<close>

text \<open>
  C1 (as amended). For every call of \<open>archive_create\<close>, \<open>archive_test\<close> or
  \<open>archive_extract\<close>: the call returns the text \<open>t\<close> exactly when it started the child,
  the child exited with status zero, its captured standard output decodes under code
  page 1252 to \<open>t\<close>, and \<open>t\<close> contains \<^verbatim>\<open>Everything is Ok\<close>. A child that exits with a
  status other than zero makes the call fail with \<open>CalledProcessError\<close>, whatever it
  printed.
\<close>

theorem returns_iff_exit_zero_and_marker:
  "(\<forall>r. r = archive_create env fs archive password encrypt_headers overwrite verbose volumes
        \<or> r = archive_test env archive password verbose
        \<or> r = archive_extract env archive into_dir password flat overwrite' verbose
      \<longrightarrow>
        (\<forall>t. result r = Inr t \<longleftrightarrow>
           (\<exists>command out. invoked r = [command] \<and> run env command = Exited 0 out
              \<and> decode_cp1252 out = Some t \<and> sublist success_marker t))
      \<and> (\<forall>command status out.
           invoked r = [command] \<and> run env command = Exited status out \<and> status \<noteq> 0
           \<longrightarrow> result r = Inl (CalledProcessError status)))"
proof (intro allI impI)
  fix r
  assume "r = archive_create env fs archive password encrypt_headers overwrite verbose volumes
        \<or> r = archive_test env archive password verbose
        \<or> r = archive_extract env archive into_dir password flat overwrite' verbose"
  then obtain c where r: "r = (case c of Inl e \<Rightarrow> raised e | Inr command \<Rightarrow> invoke env command)"
    unfolding archive_create_def archive_test_def archive_extract_def by blast
  show "(\<forall>t. result r = Inr t \<longleftrightarrow>
           (\<exists>command out. invoked r = [command] \<and> run env command = Exited 0 out
              \<and> decode_cp1252 out = Some t \<and> sublist success_marker t))
      \<and> (\<forall>command status out.
           invoked r = [command] \<and> run env command = Exited status out \<and> status \<noteq> 0
           \<longrightarrow> result r = Inl (CalledProcessError status))"
    using call_returns_iff [OF r] call_fails_on_nonzero [OF r] by blast
qed


text \<open>
  The claim as first stated lets the marker alone decide, whatever the exit status.
  On a child that prints the marker and exits with status 1, \<open>archive_test\<close> raises
  \<open>CalledProcessError\<close> although the decoded output contains the marker.
\<close>

theorem exit_status_counterexample:
  "decode_cp1252 (ascii ''Everything is Ok'') = Some (utext ''Everything is Ok'')
   \<and> sublist success_marker (utext ''Everything is Ok'')
   \<and> archive_test (host [] [] (Exited 1 (ascii ''Everything is Ok''))) ''x.7z'' None (PyInt 3)
       = \<lparr>invoked = [[win ''C:/py7z/7-zip/x64/7z.exe'', ''t'', win ''C:/work/x.7z'',
                       [CHR ''-'', CHR ''p'', CHR 0x7F], ''-bb3'', ''-bt'']],
          result = Inl (CalledProcessError 1)\<rparr>"
  by (simp add: sample_eval)


theorem returns_iff_exit_zero_and_marker_witness:
  "result (archive_test (host [] [] (Exited 0 (ascii ''Done. Everything is Ok''))) ''x.7z'' None
             (PyInt 3)) = Inr (utext ''Done. Everything is Ok'')
   \<and> result (archive_test (host [] [] (Exited 2 (ascii ''Done. Everything is Ok''))) ''x.7z'' None
             (PyInt 3)) = Inl (CalledProcessError 2)"
proof -
  define out where "out = ascii ''Done. Everything is Ok''"
  define t where "t = utext ''Done. Everything is Ok''"
  define command where "command = [win ''C:/py7z/7-zip/x64/7z.exe'', ''t'', win ''C:/work/x.7z'',
                   [CHR ''-'', CHR ''p'', CHR 0x7F], ''-bb3'', ''-bt'']"
  define good where "good = host [] [] (Exited 0 out)"
  define bad where "bad = host [] [] (Exited 2 out)"
  define a where "a = ''x.7z''"
  note spec_good = returns_iff_exit_zero_and_marker
    [where env = good and archive = a and password = None and verbose = "PyInt 3",
      THEN spec, THEN mp, OF disjI2, OF disjI1, OF refl]
  note spec_bad = returns_iff_exit_zero_and_marker
    [where env = bad and archive = a and password = None and verbose = "PyInt 3",
      THEN spec, THEN mp, OF disjI2, OF disjI1, OF refl]
  have inv: "invoked (archive_test (host [] [] proc) a None (PyInt 3)) = [command]" for proc
    by (simp add: a_def command_def archive_test_def test_command_def host_def nt_abspath_def
          has_drive_def win_def DEL_def str_int_def str_nat.simps)
  have dec: "decode_cp1252 out = Some t"
    by (simp add: out_def t_def ascii_def utext_def decode_byte_def)
  have mark: "sublist success_marker t"
    by (simp add: t_def success_marker_def utext_def sublist_code(3))
  have run_good: "run good command = Exited 0 out"
    by (simp add: good_def host_def)
  have inv_good: "invoked (archive_test good a None (PyInt 3)) = [command]"
    unfolding good_def by (rule inv)
  have run_bad: "run bad command = Exited 2 out"
    by (simp add: bad_def host_def)
  have inv_bad: "invoked (archive_test bad a None (PyInt 3)) = [command]"
    unfolding bad_def by (rule inv)
  have "\<exists>command out. invoked (archive_test good a None (PyInt 3)) = [command]
          \<and> run good command = Exited 0 out \<and> decode_cp1252 out = Some t
          \<and> sublist success_marker t"
    by (intro exI conjI) (rule inv_good run_good dec mark)+
  then have 1: "result (archive_test good a None (PyInt 3)) = Inr t"
    by (rule spec_good [THEN conjunct1, THEN spec, THEN iffD2])
  have "invoked (archive_test bad a None (PyInt 3)) = [command]
          \<and> run bad command = Exited 2 out \<and> (2::int) \<noteq> 0"
    using inv_bad run_bad by simp
  then have 2: "result (archive_test bad a None (PyInt 3)) = Inl (CalledProcessError 2)"
    by (rule spec_bad [THEN conjunct2, THEN spec, THEN spec, THEN spec, THEN mp])
  from 1 2 show ?thesis
    by (simp only: good_def bad_def t_def out_def a_def)
qed



section \<open>Paths that share a basename\<close>

lemma seen_entry_iff:
  "(k, vs) \<in> set (foldl (\<lambda>seen item_path. setdefault_add seen (bn item_path) item_path) [] ps)
     \<longleftrightarrow> (\<exists>p \<in> set ps. bn p = k) \<and> vs = ffilter (\<lambda>p. bn p = k) (fset_of_list ps)"
proof -
  let ?seen = "foldl (\<lambda>seen item_path. setdefault_add seen (bn item_path) item_path) [] ps"
  have "(k, vs) \<in> set ?seen \<longleftrightarrow> map_of ?seen k = Some vs"
    using distinct_seen [of bn ps] by simp
  then show ?thesis
    by (auto simp: map_of_seen)
qed

lemma first_conflict_seen_None:
  "first_conflict (foldl (\<lambda>seen item_path. setdefault_add seen (bn item_path) item_path) [] ps) = None
     \<longleftrightarrow> (\<forall>p \<in> set ps. \<forall>q \<in> set ps. bn p = bn q \<longrightarrow> p = q)"
  (is "first_conflict ?seen = None \<longleftrightarrow> ?unique")
proof
  assume none: "first_conflict ?seen = None"
  show ?unique
  proof (intro ballI impI)
    fix p q assume pq: "p \<in> set ps" "q \<in> set ps" "bn p = bn q"
    let ?vs = "ffilter (\<lambda>x. bn x = bn p) (fset_of_list ps)"
    from pq have "(bn p, ?vs) \<in> set ?seen"
      by (auto simp: seen_entry_iff)
    with none have "\<not> fcard ?vs > 1"
      by (auto simp: first_conflict_None)
    moreover from pq have "p |\<in>| ?vs" "q |\<in>| ?vs"
      by (auto simp: fset_of_list_elem)
    ultimately show "p = q"
      unfolding fcard_gt1 by blast
  qed
next
  assume u: ?unique
  have "fcard vs \<le> 1" if "(k, vs) \<in> set ?seen" for k vs
  proof -
    from that have vs: "vs = ffilter (\<lambda>p. bn p = k) (fset_of_list ps)"
      by (simp add: seen_entry_iff)
    have "\<not> fcard vs > 1"
      unfolding fcard_gt1 using u by (auto simp: vs fset_of_list_elem)
    then show ?thesis by simp
  qed
  then show "first_conflict ?seen = None"
    by (auto simp: first_conflict_None)
qed

lemma first_conflict_seen_Some:
  assumes "first_conflict (foldl (\<lambda>seen item_path. setdefault_add seen (bn item_path) item_path) [] ps) = Some k"
  shows "\<exists>p \<in> set ps. \<exists>q \<in> set ps. p \<noteq> q \<and> bn p = k \<and> bn q = k"
proof -
  from assms obtain vs where
    entry: "(k, vs) \<in> set (foldl (\<lambda>seen item_path. setdefault_add seen (bn item_path) item_path) [] ps)"
    and many: "fcard vs > 1"
    using first_conflict_Some by blast
  from entry have vs: "vs = ffilter (\<lambda>p. bn p = k) (fset_of_list ps)"
    by (simp add: seen_entry_iff)
  from many obtain x y where "x |\<in>| vs" "y |\<in>| vs" "x \<noteq> y"
    unfolding fcard_gt1 by blast
  then have "x \<in> set ps" "y \<in> set ps" "bn x = k" "bn y = k" "x \<noteq> y"
    by (simp_all add: vs fset_of_list_elem)
  then show ?thesis
    by blast
qed

text \<open>
  C2. For every call of \<open>archive_create\<close> whose list of input paths holds two distinct
  paths with the same basename, the call raises \<open>ValueError\<close> carrying a basename that
  two distinct input paths share, and no child process is started.
\<close>

theorem create_rejects_shared_basename:
  assumes "p \<in> set files_and_folders" and "q \<in> set files_and_folders" and "p \<noteq> q"
    and "basename env p = basename env q"
  shows "\<exists>item_name.
           archive_create env files_and_folders archive password encrypt_headers overwrite
             verbose volumes = \<lparr>invoked = [], result = Inl (ValueError item_name)\<rparr>
         \<and> (\<exists>p' \<in> set files_and_folders. \<exists>q' \<in> set files_and_folders.
               p' \<noteq> q' \<and> basename env p' = item_name \<and> basename env q' = item_name)"
proof -
  let ?seen = "foldl (\<lambda>seen item_path. setdefault_add seen (basename env item_path) item_path)
                 [] files_and_folders"
  from assms have "first_conflict ?seen \<noteq> None"
    unfolding first_conflict_seen_None by blast
  then obtain item_name where c: "first_conflict ?seen = Some item_name"
    by blast
  then have "create_command env files_and_folders archive password encrypt_headers overwrite
      verbose volumes = Inl (ValueError item_name)"
    by (simp add: create_command_def)
  then have "archive_create env files_and_folders archive password encrypt_headers overwrite
      verbose volumes = \<lparr>invoked = [], result = Inl (ValueError item_name)\<rparr>"
    by (simp add: archive_create_def raised_def)
  with first_conflict_seen_Some [OF c] show ?thesis
    by blast
qed


theorem create_rejects_shared_basename_witness:
  "win ''a.txt'' \<noteq> win ''d/a.txt''
   \<and> basename (host [] [] NotStarted) (win ''a.txt'')
       = basename (host [] [] NotStarted) (win ''d/a.txt'')
   \<and> archive_create (host [] [] NotStarted) [win ''a.txt'', win ''d/a.txt''] ''x.7z'' None
         False False (PyInt 3) None
       = \<lparr>invoked = [], result = Inl (ValueError ''a.txt'')\<rparr>"
proof -
  define env where "env = host [] [] NotStarted"
  define p where "p = win ''a.txt''"
  define q where "q = win ''d/a.txt''"
  define a where "a = ''x.7z''"
  have ne: "p \<noteq> q"
    by (simp add: p_def q_def win_def)
  have bp: "basename env p = ''a.txt''" and bq: "basename env q = ''a.txt''"
    by (simp_all add: env_def p_def q_def host_def win_def nt_basename_def has_drive_def)
  have "p \<in> set [p, q]" and "q \<in> set [p, q]"
    by simp_all
  from create_rejects_shared_basename [OF this ne, of env a None False False "PyInt 3" None]
  obtain item_name where
    r: "archive_create env [p, q] a None False False (PyInt 3) None
          = \<lparr>invoked = [], result = Inl (ValueError item_name)\<rparr>"
    and "\<exists>p' \<in> set [p, q]. basename env p' = item_name"
    using bp bq by auto
  then have "item_name = ''a.txt''"
    using bp bq by auto
  with r ne bp bq have "p \<noteq> q \<and> basename env p = basename env q
      \<and> archive_create env [p, q] a None False False (PyInt 3) None
          = \<lparr>invoked = [], result = Inl (ValueError ''a.txt'')\<rparr>"
    by simp
  then show ?thesis
    unfolding env_def p_def q_def a_def .
qed



section \<open>The checks of archive\_create\<close>

lemma create_command_unique:
  assumes "\<forall>p \<in> set fs. \<forall>q \<in> set fs. basename env p = basename env q \<longrightarrow> p = q"
  shows "create_command env fs archive password encrypt_headers overwrite verbose volumes =
     (if isdir env (abspath env archive)
      then Inl (AssertionError (utext ''dir already exists at output path''))
      else if \<not> overwrite \<and> isfile env (abspath env archive)
      then Inl (AssertionError (utext ''file already exists at output path''))
      else
        (case add_volumes
                ([EXE_PATH env, ''a'', abspath env archive, ''-t7z'', ''-m0=lzma2'', ''-mx=9'',
                  ''-bb'' @ py_format verbose, ''-bt'']
                 @ (if overwrite then [''-aoa''] else [])) volumes of
           Inl e \<Rightarrow> Inl e
         | Inr command \<Rightarrow>
             (case add_password command password encrypt_headers of
                Inl e \<Rightarrow> Inl e
              | Inr command \<Rightarrow> Inr (command @ map (abspath env) fs))))"
  using assms [folded first_conflict_seen_None]
  by (simp add: create_command_def Let_def)

lemma create_command_conflict:
  assumes "\<not> (\<forall>p \<in> set fs. \<forall>q \<in> set fs. basename env p = basename env q \<longrightarrow> p = q)"
  shows "\<exists>item_name. create_command env fs archive password encrypt_headers overwrite verbose
           volumes = Inl (ValueError item_name)"
proof -
  from assms obtain item_name where
    "first_conflict (foldl (\<lambda>seen item_path. setdefault_add seen (basename env item_path) item_path)
       [] fs) = Some item_name"
    unfolding first_conflict_seen_None [symmetric] by blast
  then show ?thesis
    by (simp add: create_command_def)
qed

lemma add_password_quote:
  "CHR 0x22 \<in> set p \<Longrightarrow>
     add_password command (Some p) encrypt_headers
       = Inl (NotImplementedError ''double-quote not supported'')"
  by (auto simp: add_password_def)

lemma create_command_quote:
  assumes "CHR 0x22 \<in> set p"
  shows "isl (create_command env fs archive (Some p) encrypt_headers overwrite verbose volumes)"
    and "create_command env fs archive (Some p) encrypt_headers overwrite verbose volumes
           = Inl (NotImplementedError ''double-quote not supported'')
         \<longleftrightarrow> (\<forall>x \<in> set fs. \<forall>y \<in> set fs. basename env x = basename env y \<longrightarrow> x = y)
             \<and> \<not> isdir env (abspath env archive)
             \<and> (overwrite \<or> \<not> isfile env (abspath env archive))
             \<and> volumes \<noteq> Some []"
proof -
  show "isl (create_command env fs archive (Some p) encrypt_headers overwrite verbose volumes)"
  proof (cases "\<forall>x \<in> set fs. \<forall>y \<in> set fs. basename env x = basename env y \<longrightarrow> x = y")
    case True
    show ?thesis
      by (simp add: create_command_unique [OF True] add_password_quote [OF assms]
            split: sum.splits)
  next
    case False
    from create_command_conflict [OF False] show ?thesis
      by (metis isl_def)
  qed
  show "create_command env fs archive (Some p) encrypt_headers overwrite verbose volumes
           = Inl (NotImplementedError ''double-quote not supported'')
         \<longleftrightarrow> (\<forall>x \<in> set fs. \<forall>y \<in> set fs. basename env x = basename env y \<longrightarrow> x = y)
             \<and> \<not> isdir env (abspath env archive)
             \<and> (overwrite \<or> \<not> isfile env (abspath env archive))
             \<and> volumes \<noteq> Some []"
  proof (cases "\<forall>x \<in> set fs. \<forall>y \<in> set fs. basename env x = basename env y \<longrightarrow> x = y")
    case True
    show ?thesis
      unfolding create_command_unique [OF True]
      using True by (auto simp: add_password_quote [OF assms] add_volumes_def split: option.splits)
  next
    case False
    from create_command_conflict [OF False] obtain item_name where
      "create_command env fs archive (Some p) encrypt_headers overwrite verbose volumes
         = Inl (ValueError item_name)"
      by blast
    with False show ?thesis
      by simp
  qed
qed

lemma extract_command_quote:
  assumes "CHR 0x22 \<in> set p"
  shows "isl (extract_command env archive into_dir (Some p) flat overwrite verbose)"
    and "extract_command env archive into_dir (Some p) flat overwrite verbose
           = Inl (NotImplementedError ''double-quote not supported'')
         \<longleftrightarrow> isfile env (abspath env archive)
             \<and> abspath env (strip (case into_dir of None \<Rightarrow> ''.'' | Some d \<Rightarrow> d)) \<noteq> []
             \<and> list_all (\<lambda>char. char \<notin> set (basename env
                   (abspath env (strip (case into_dir of None \<Rightarrow> ''.'' | Some d \<Rightarrow> d))))) reserved
             \<and> \<not> isfile env (abspath env (strip (case into_dir of None \<Rightarrow> ''.'' | Some d \<Rightarrow> d)))"
  using assms by (auto simp: extract_command_def Let_def)

lemma test_command_quote:
  "CHR 0x22 \<in> set p \<Longrightarrow>
     test_command env archive (Some p) verbose
       = Inl (NotImplementedError ''double-quote not supported'')"
  by (auto simp: test_command_def)

lemma call_of_Inl:
  "c = Inl e \<Longrightarrow> (case c of Inl e \<Rightarrow> raised e | Inr command \<Rightarrow> invoke env command)
     = \<lparr>invoked = [], result = Inl e\<rparr>"
  by (simp add: raised_def)

lemma call_of_isl:
  "isl c \<Longrightarrow> invoked (case c of Inl e \<Rightarrow> raised e | Inr command \<Rightarrow> invoke env command) = []
     \<and> isl (result (case c of Inl e \<Rightarrow> raised e | Inr command \<Rightarrow> invoke env command))
     \<and> (\<forall>e. result (case c of Inl e \<Rightarrow> raised e | Inr command \<Rightarrow> invoke env command) = Inl e
            \<longleftrightarrow> c = Inl e)"
  by (cases c) simp_all


section \<open>A double quote in the password\<close>

text \<open>
  C3 (as amended). For every call of \<open>archive_create\<close>, \<open>archive_test\<close> or
  \<open>archive_extract\<close> with a password that contains a double quote, the call fails and
  no child process is started. \<open>archive_test\<close> always fails with \<open>NotImplementedError\<close>.
  \<open>archive_create\<close> and \<open>archive_extract\<close> fail with \<open>NotImplementedError\<close> exactly
  when the checks that come before the password check pass: for \<open>archive_create\<close> the
  basenames are unique, no directory is at the archive path, no file is there unless
  \<open>overwrite\<close> is set, and the volume spec is not the empty string; for
  \<open>archive_extract\<close> the archive is a file, the resolved destination is not empty, its
  basename has no reserved character, and no file is at the destination. Otherwise they
  fail with the error of the earlier check.
\<close>

theorem quote_in_password_stops_before_child:
  assumes "CHR 0x22 \<in> set p"
  shows
    "archive_test env archive (Some p) verbose
       = \<lparr>invoked = [], result = Inl (NotImplementedError ''double-quote not supported'')\<rparr>
     \<and> invoked (archive_create env fs archive (Some p) encrypt_headers overwrite verbose volumes) = []
     \<and> isl (result (archive_create env fs archive (Some p) encrypt_headers overwrite verbose volumes))
     \<and> (result (archive_create env fs archive (Some p) encrypt_headers overwrite verbose volumes)
           = Inl (NotImplementedError ''double-quote not supported'')
         \<longleftrightarrow> (\<forall>x \<in> set fs. \<forall>y \<in> set fs. basename env x = basename env y \<longrightarrow> x = y)
             \<and> \<not> isdir env (abspath env archive)
             \<and> (overwrite \<or> \<not> isfile env (abspath env archive))
             \<and> volumes \<noteq> Some [])
     \<and> invoked (archive_extract env archive into_dir (Some p) flat overwrite' verbose) = []
     \<and> isl (result (archive_extract env archive into_dir (Some p) flat overwrite' verbose))
     \<and> (result (archive_extract env archive into_dir (Some p) flat overwrite' verbose)
           = Inl (NotImplementedError ''double-quote not supported'')
         \<longleftrightarrow> isfile env (abspath env archive)
             \<and> abspath env (strip (case into_dir of None \<Rightarrow> ''.'' | Some d \<Rightarrow> d)) \<noteq> []
             \<and> list_all (\<lambda>char. char \<notin> set (basename env
                   (abspath env (strip (case into_dir of None \<Rightarrow> ''.'' | Some d \<Rightarrow> d))))) reserved
             \<and> \<not> isfile env (abspath env (strip (case into_dir of None \<Rightarrow> ''.'' | Some d \<Rightarrow> d))))"
proof -
  note c = create_command_quote [OF assms, of env fs archive encrypt_headers overwrite verbose volumes]
  note x = extract_command_quote [OF assms, of env archive into_dir flat overwrite' verbose]
  have "archive_test env archive (Some p) verbose
       = \<lparr>invoked = [], result = Inl (NotImplementedError ''double-quote not supported'')\<rparr>"
    unfolding archive_test_def by (rule call_of_Inl) (rule test_command_quote [OF assms])
  moreover have "invoked (archive_create env fs archive (Some p) encrypt_headers overwrite verbose volumes) = []
     \<and> isl (result (archive_create env fs archive (Some p) encrypt_headers overwrite verbose volumes))
     \<and> (\<forall>e. result (archive_create env fs archive (Some p) encrypt_headers overwrite verbose volumes) = Inl e
          \<longleftrightarrow> create_command env fs archive (Some p) encrypt_headers overwrite verbose volumes = Inl e)"
    unfolding archive_create_def by (rule call_of_isl) (rule c(1))
  moreover have "invoked (archive_extract env archive into_dir (Some p) flat overwrite' verbose) = []
     \<and> isl (result (archive_extract env archive into_dir (Some p) flat overwrite' verbose))
     \<and> (\<forall>e. result (archive_extract env archive into_dir (Some p) flat overwrite' verbose) = Inl e
          \<longleftrightarrow> extract_command env archive into_dir (Some p) flat overwrite' verbose = Inl e)"
    unfolding archive_extract_def by (rule call_of_isl) (rule x(1))
  ultimately show ?thesis
    using c x by simp
qed

text \<open>
  The claim as first stated promises \<open>NotImplementedError\<close> for every such call. An
  \<open>archive_extract\<close> of an archive that does not exist raises the assertion error of
  line 174 instead: that check comes first.
\<close>

theorem quote_in_password_counterexample:
  "CHR 0x22 \<in> set [CHR ''p'', CHR 0x22]
   \<and> archive_extract (host [] [] NotStarted) ''missing.7z'' None (Some [CHR ''p'', CHR 0x22])
         False (PyBool True) (PyInt 3)
       = \<lparr>invoked = [],
          result = Inl (AssertionError (utext ''archive does not exist at provided path''))\<rparr>"
  by (simp add: archive_extract_def extract_command_def raised_def host_def)


theorem quote_in_password_stops_before_child_witness:
  "CHR 0x22 \<in> set [CHR ''p'', CHR 0x22]
   \<and> archive_test (host [] [win ''C:/work/x.7z''] NotStarted) ''x.7z'' (Some [CHR ''p'', CHR 0x22])
         (PyInt 3)
       = \<lparr>invoked = [], result = Inl (NotImplementedError ''double-quote not supported'')\<rparr>
   \<and> invoked (archive_extract (host [] [win ''C:/work/x.7z''] NotStarted) ''x.7z'' (Some ''out'')
         (Some [CHR ''p'', CHR 0x22]) False (PyBool True) (PyInt 3)) = []
   \<and> result (archive_extract (host [] [win ''C:/work/x.7z''] NotStarted) ''x.7z'' (Some ''out'')
         (Some [CHR ''p'', CHR 0x22]) False (PyBool True) (PyInt 3))
       = Inl (NotImplementedError ''double-quote not supported'')"
proof -
  define env where "env = host [] [win ''C:/work/x.7z''] NotStarted"
  define p where "p = [CHR ''p'', CHR 0x22]"
  define a where "a = ''x.7z''"
  define d where "d = Some ''out''"
  have q: "CHR 0x22 \<in> set p"
    by (simp add: p_def)
  have "isfile env (abspath env a)"
    by (simp add: env_def a_def host_def win_def nt_abspath_def has_drive_def)
  moreover have "abspath env (strip (case d of None \<Rightarrow> ''.'' | Some d \<Rightarrow> d)) = win ''C:/work/out''"
    by (simp add: env_def d_def host_def win_def nt_abspath_def has_drive_def strip_def
          py_isspace_def)
  moreover have "win ''C:/work/out'' \<noteq> []"
    and "list_all (\<lambda>char. char \<notin> set (basename env (win ''C:/work/out''))) reserved"
    and "\<not> isfile env (win ''C:/work/out'')"
    by (simp_all add: env_def host_def win_def nt_basename_def has_drive_def reserved_def)
  ultimately have "CHR 0x22 \<in> set p
      \<and> archive_test env a (Some p) (PyInt 3)
          = \<lparr>invoked = [], result = Inl (NotImplementedError ''double-quote not supported'')\<rparr>
      \<and> invoked (archive_extract env a d (Some p) False (PyBool True) (PyInt 3)) = []
      \<and> result (archive_extract env a d (Some p) False (PyBool True) (PyInt 3))
          = Inl (NotImplementedError ''double-quote not supported'')"
    using q quote_in_password_stops_before_child [OF q, of env a "PyInt 3" _ _ _ _ d False "PyBool True"]
    by simp
  then show ?thesis
    unfolding env_def p_def a_def d_def .
qed



section \<open>The checks of archive\_extract\<close>

lemma extract_command_checked:
  assumes "isfile env (abspath env archive)"
    and "\<forall>p. password = Some p \<longrightarrow> p \<noteq> [] \<and> CHR 0x22 \<notin> set p"
    and "abspath env (strip (case into_dir of None \<Rightarrow> ''.'' | Some d \<Rightarrow> d)) \<noteq> []"
    and "list_all (\<lambda>char. char \<notin> set (basename env
           (abspath env (strip (case into_dir of None \<Rightarrow> ''.'' | Some d \<Rightarrow> d))))) reserved"
    and "\<not> isfile env (abspath env (strip (case into_dir of None \<Rightarrow> ''.'' | Some d \<Rightarrow> d)))"
  shows "extract_command env archive into_dir password flat overwrite verbose =
     (if overwrite_mode overwrite \<notin> {PyStr ''a'', PyStr ''s'', PyStr ''u'', PyStr ''t''}
      then Inl (AssertionError [])
      else Inr [EXE_PATH env,
                if flat then ''e'' else ''x'',
                ''-o'' @ abspath env (strip (case into_dir of None \<Rightarrow> ''.'' | Some d \<Rightarrow> d)),
                ''-p'' @ (case password of None \<Rightarrow> DEL | Some p \<Rightarrow> p),
                ''-ao'' @ py_format (overwrite_mode overwrite),
                ''-bb'' @ py_format verbose,
                ''-bt'',
                abspath env archive])"
proof (cases password)
  case None
  with assms show ?thesis
    by (simp add: extract_command_def Let_def DEL_def)
next
  case (Some p)
  with assms show ?thesis
    by (simp add: extract_command_def Let_def)
qed

lemma overwrite_mode_valid:
  "overwrite_mode overwrite \<in> {PyStr ''a'', PyStr ''s'', PyStr ''u'', PyStr ''t''}
     \<longleftrightarrow> overwrite \<in> {PyBool True, PyBool False,
                       PyStr ''a'', PyStr ''s'', PyStr ''u'', PyStr ''t''}"
  by (cases overwrite) (auto simp: overwrite_mode_def)

lemma extract_command_bad_mode:
  assumes "overwrite \<notin> {PyBool True, PyBool False, PyStr ''a'', PyStr ''s'', PyStr ''u'', PyStr ''t''}"
  shows "(\<exists>msg. extract_command env archive into_dir password flat overwrite verbose
            = Inl (AssertionError msg))
         \<or> extract_command env archive into_dir password flat overwrite verbose
            = Inl (NotImplementedError ''double-quote not supported'')"
  using assms [folded overwrite_mode_valid]
  by (simp add: extract_command_def Let_def)


section \<open>The overwrite parameter of archive\_extract\<close>

text \<open>
  C7. For every call of \<open>archive_extract\<close> that passes the checks made before
  \<open>overwrite\<close> is looked at (the archive is a file, a given password is not empty and has
  no double quote, the resolved destination is not empty, has no reserved character in
  its basename and is not a file): \<open>True\<close> gives the mode flag \<^verbatim>\<open>-aoa\<close>, \<open>False\<close> gives
  \<^verbatim>\<open>-aos\<close>, each of the strings \<^verbatim>\<open>a\<close>, \<^verbatim>\<open>s\<close>, \<^verbatim>\<open>u\<close>, \<^verbatim>\<open>t\<close> is passed on as given, and
  any other value raises the assertion error of line 201. For every call at all, any
  other value makes the call fail before a child process is started, with an assertion
  error or with the error of the double-quote check.
\<close>

theorem extract_overwrite_modes:
  "(isfile env (abspath env archive)
    \<and> (\<forall>p. password = Some p \<longrightarrow> p \<noteq> [] \<and> CHR 0x22 \<notin> set p)
    \<and> abspath env (strip (case into_dir of None \<Rightarrow> ''.'' | Some d \<Rightarrow> d)) \<noteq> []
    \<and> list_all (\<lambda>char. char \<notin> set (basename env
           (abspath env (strip (case into_dir of None \<Rightarrow> ''.'' | Some d \<Rightarrow> d))))) reserved
    \<and> \<not> isfile env (abspath env (strip (case into_dir of None \<Rightarrow> ''.'' | Some d \<Rightarrow> d)))
    \<longrightarrow>
      (overwrite = PyBool True \<longrightarrow>
         (\<exists>command. invoked (archive_extract env archive into_dir password flat overwrite verbose)
            = [command] \<and> command ! 4 = ''-aoa''))
    \<and> (overwrite = PyBool False \<longrightarrow>
         (\<exists>command. invoked (archive_extract env archive into_dir password flat overwrite verbose)
            = [command] \<and> command ! 4 = ''-aos''))
    \<and> (\<forall>mode \<in> {''a'', ''s'', ''u'', ''t''}. overwrite = PyStr mode \<longrightarrow>
         (\<exists>command. invoked (archive_extract env archive into_dir password flat overwrite verbose)
            = [command] \<and> command ! 4 = ''-ao'' @ mode))
    \<and> (overwrite \<notin> {PyBool True, PyBool False, PyStr ''a'', PyStr ''s'', PyStr ''u'', PyStr ''t''}
         \<longrightarrow> archive_extract env archive into_dir password flat overwrite verbose
            = \<lparr>invoked = [], result = Inl (AssertionError [])\<rparr>))
   \<and> (overwrite \<notin> {PyBool True, PyBool False, PyStr ''a'', PyStr ''s'', PyStr ''u'', PyStr ''t''}
        \<longrightarrow> invoked (archive_extract env archive into_dir password flat overwrite verbose) = []
          \<and> ((\<exists>msg. result (archive_extract env archive into_dir password flat overwrite verbose)
                  = Inl (AssertionError msg))
             \<or> result (archive_extract env archive into_dir password flat overwrite verbose)
                  = Inl (NotImplementedError ''double-quote not supported'')))"
  (is "(?pre \<longrightarrow> ?mapping) \<and> ?other")
proof (rule conjI)
  show "?pre \<longrightarrow> ?mapping"
  proof (rule impI)
    assume pre: ?pre
    note checked = extract_command_checked [of env archive password into_dir flat overwrite verbose]
    from pre have c: "extract_command env archive into_dir password flat overwrite verbose =
       (if overwrite_mode overwrite \<notin> {PyStr ''a'', PyStr ''s'', PyStr ''u'', PyStr ''t''}
        then Inl (AssertionError [])
        else Inr [EXE_PATH env,
                  if flat then ''e'' else ''x'',
                  ''-o'' @ abspath env (strip (case into_dir of None \<Rightarrow> ''.'' | Some d \<Rightarrow> d)),
                  ''-p'' @ (case password of None \<Rightarrow> DEL | Some p \<Rightarrow> p),
                  ''-ao'' @ py_format (overwrite_mode overwrite),
                  ''-bb'' @ py_format verbose,
                  ''-bt'',
                  abspath env archive])"
      by (intro checked) simp_all
    show ?mapping
      unfolding archive_extract_def c
      by (cases overwrite) (auto simp: overwrite_mode_def raised_def)
  qed
  show ?other
  proof (rule impI)
    assume bad: "overwrite \<notin> {PyBool True, PyBool False, PyStr ''a'', PyStr ''s'', PyStr ''u'', PyStr ''t''}"
    from extract_command_bad_mode [OF bad, of env archive into_dir password flat verbose]
    show "invoked (archive_extract env archive into_dir password flat overwrite verbose) = []
          \<and> ((\<exists>msg. result (archive_extract env archive into_dir password flat overwrite verbose)
                  = Inl (AssertionError msg))
             \<or> result (archive_extract env archive into_dir password flat overwrite verbose)
                  = Inl (NotImplementedError ''double-quote not supported''))"
      unfolding archive_extract_def by auto
  qed
qed


theorem extract_overwrite_modes_witness:
  "invoked (archive_extract (host [] [win ''C:/work/x.7z''] NotStarted) ''x.7z'' None None False
      (PyBool False) (PyInt 3)) ! 0 ! 4 = ''-aos''
   \<and> archive_extract (host [] [win ''C:/work/x.7z''] NotStarted) ''x.7z'' None None False
      (PyStr ''z'') (PyInt 3) = \<lparr>invoked = [], result = Inl (AssertionError [])\<rparr>
   \<and> archive_extract (host [] [win ''C:/work/x.7z''] NotStarted) ''x.7z'' None None False
      (PyInt 1) (PyInt 3) = \<lparr>invoked = [], result = Inl (AssertionError [])\<rparr>"
proof -
  define env where "env = host [] [win ''C:/work/x.7z''] NotStarted"
  define d where "d = (None :: string option)"
  have dest: "abspath env (strip (case d of None \<Rightarrow> ''.'' | Some d \<Rightarrow> d)) = win ''C:/work''"
    by (simp add: env_def d_def host_def nt_abspath_def strip_def py_isspace_def)
  have arch: "abspath env ''x.7z'' = win ''C:/work/x.7z''"
    by (simp add: env_def host_def win_def nt_abspath_def has_drive_def)
  have pre: "isfile env (abspath env ''x.7z'')
    \<and> (\<forall>p. None = Some p \<longrightarrow> p \<noteq> [] \<and> CHR 0x22 \<notin> set p)
    \<and> abspath env (strip (case d of None \<Rightarrow> ''.'' | Some d \<Rightarrow> d)) \<noteq> []
    \<and> list_all (\<lambda>char. char \<notin> set (basename env
           (abspath env (strip (case d of None \<Rightarrow> ''.'' | Some d \<Rightarrow> d))))) reserved
    \<and> \<not> isfile env (abspath env (strip (case d of None \<Rightarrow> ''.'' | Some d \<Rightarrow> d)))"
    unfolding dest arch
    by (simp add: env_def host_def win_def nt_basename_def has_drive_def reserved_def)
  note m = extract_overwrite_modes [of env "''x.7z''" None d, THEN conjunct1, THEN mp, OF pre]
  from m [of "PyBool False" False "PyInt 3"]
  have "invoked (archive_extract env ''x.7z'' d None False (PyBool False) (PyInt 3)) ! 0 ! 4
          = ''-aos''"
    by auto
  moreover from m [of "PyStr ''z''" False "PyInt 3"]
  have "archive_extract env ''x.7z'' d None False (PyStr ''z'') (PyInt 3)
          = \<lparr>invoked = [], result = Inl (AssertionError [])\<rparr>"
    by simp
  moreover from m [of "PyInt 1" False "PyInt 3"]
  have "archive_extract env ''x.7z'' d None False (PyInt 1) (PyInt 3)
          = \<lparr>invoked = [], result = Inl (AssertionError [])\<rparr>"
    by simp
  ultimately show ?thesis
    unfolding env_def d_def by simp
qed


section \<open>The argument vector of archive\_extract\<close>

text \<open>
  C8. For every call of \<open>archive_extract\<close> that passes all checks, the argument vector
  given to the child is, in order: the executable, \<^verbatim>\<open>e\<close> when \<open>flat\<close> is set and \<^verbatim>\<open>x\<close>
  otherwise, the destination flag \<^verbatim>\<open>-o\<close> with the resolved destination, the password
  flag, the overwrite-mode flag, the verbosity flag, \<^verbatim>\<open>-bt\<close>, and last the resolved
  archive path.
\<close>

theorem extract_argument_vector:
  assumes "isfile env (abspath env archive)"
    and "\<forall>p. password = Some p \<longrightarrow> p \<noteq> [] \<and> CHR 0x22 \<notin> set p"
    and "abspath env (strip (case into_dir of None \<Rightarrow> ''.'' | Some d \<Rightarrow> d)) \<noteq> []"
    and "list_all (\<lambda>char. char \<notin> set (basename env
           (abspath env (strip (case into_dir of None \<Rightarrow> ''.'' | Some d \<Rightarrow> d))))) reserved"
    and "\<not> isfile env (abspath env (strip (case into_dir of None \<Rightarrow> ''.'' | Some d \<Rightarrow> d)))"
    and "overwrite \<in> {PyBool True, PyBool False, PyStr ''a'', PyStr ''s'', PyStr ''u'', PyStr ''t''}"
  shows "invoked (archive_extract env archive into_dir password flat overwrite verbose) =
     [[EXE_PATH env,
       if flat then ''e'' else ''x'',
       ''-o'' @ abspath env (strip (case into_dir of None \<Rightarrow> ''.'' | Some d \<Rightarrow> d)),
       ''-p'' @ (case password of None \<Rightarrow> DEL | Some p \<Rightarrow> p),
       ''-ao'' @ py_format (overwrite_mode overwrite),
       ''-bb'' @ py_format verbose,
       ''-bt'',
       abspath env archive]]"
proof -
  from assms(6) have "overwrite_mode overwrite \<in> {PyStr ''a'', PyStr ''s'', PyStr ''u'', PyStr ''t''}"
    by (simp only: overwrite_mode_valid)
  then show ?thesis
    unfolding archive_extract_def extract_command_checked [OF assms(1-5)]
    by (simp del: insert_iff)
qed

theorem extract_argument_vector_witness:
  "invoked (archive_extract (host [] [win ''C:/work/x.7z''] (Exited 0 (ascii ''Everything is Ok'')))
      ''x.7z'' (Some '' out '') (Some ''pw'') True (PyStr ''u'') (PyInt 2))
   = [[win ''C:/py7z/7-zip/x64/7z.exe'', ''e'', ''-o'' @ win ''C:/work/out'', ''-ppw'', ''-aou'',
       ''-bb2'', ''-bt'', win ''C:/work/x.7z'']]"
proof -
  define env where "env = host [] [win ''C:/work/x.7z''] (Exited 0 (ascii ''Everything is Ok''))"
  define d where "d = Some '' out ''"
  have dest: "abspath env (strip (case d of None \<Rightarrow> ''.'' | Some d \<Rightarrow> d)) = win ''C:/work/out''"
    by (simp add: env_def d_def host_def win_def nt_abspath_def has_drive_def strip_def
          py_isspace_def)
  have arch: "abspath env ''x.7z'' = win ''C:/work/x.7z''"
    by (simp add: env_def host_def win_def nt_abspath_def has_drive_def)
  have exe: "EXE_PATH env = win ''C:/py7z/7-zip/x64/7z.exe''"
    by (simp add: env_def host_def)
  have 1: "isfile env (abspath env ''x.7z'')"
    unfolding arch by (simp add: env_def host_def)
  have 2: "\<forall>p. Some ''pw'' = Some p \<longrightarrow> p \<noteq> [] \<and> CHR 0x22 \<notin> set p"
    by auto
  have 3: "abspath env (strip (case d of None \<Rightarrow> ''.'' | Some d \<Rightarrow> d)) \<noteq> []"
    unfolding dest by (simp add: win_def)
  have 4: "list_all (\<lambda>char. char \<notin> set (basename env
             (abspath env (strip (case d of None \<Rightarrow> ''.'' | Some d \<Rightarrow> d))))) reserved"
    unfolding dest
    by (simp add: env_def host_def win_def nt_basename_def has_drive_def reserved_def)
  have 5: "\<not> isfile env (abspath env (strip (case d of None \<Rightarrow> ''.'' | Some d \<Rightarrow> d)))"
    unfolding dest by (simp add: env_def host_def win_def)
  have 6: "PyStr ''u'' \<in> {PyBool True, PyBool False, PyStr ''a'', PyStr ''s'', PyStr ''u'', PyStr ''t''}"
    by simp
  have "invoked (archive_extract env ''x.7z'' d (Some ''pw'') True (PyStr ''u'') (PyInt 2))
     = [[win ''C:/py7z/7-zip/x64/7z.exe'', ''e'', ''-o'' @ win ''C:/work/out'', ''-ppw'', ''-aou'',
         ''-bb2'', ''-bt'', win ''C:/work/x.7z'']]"
    unfolding extract_argument_vector [OF 1 2 3 4 5 6, of True "PyInt 2"] dest arch exe
    by (simp add: overwrite_mode_def str_int_def str_nat.simps)
  then show ?thesis
    unfolding env_def d_def .
qed



section \<open>The default password\<close>

lemma test_command_None:
  "test_command env archive None verbose =
     Inr [EXE_PATH env, ''t'', abspath env archive, ''-p'' @ DEL, ''-bb'' @ py_format verbose, ''-bt'']"
  by (simp add: test_command_def DEL_def)

lemma test_command_default:
  "test_command env archive None verbose = test_command env archive (Some DEL) verbose"
  by (simp add: test_command_def Let_def)

lemma extract_command_default:
  "extract_command env archive into_dir None flat overwrite verbose
     = extract_command env archive into_dir (Some DEL) flat overwrite verbose"
  by (simp add: extract_command_def Let_def)

lemma test_command_password_flag:
  "test_command env archive password verbose = Inr command \<Longrightarrow>
     command ! 3 = ''-p'' @ (case password of None \<Rightarrow> DEL | Some p \<Rightarrow> p)
     \<and> (case password of None \<Rightarrow> DEL | Some p \<Rightarrow> p) \<noteq> []"
  by (auto simp: test_command_def Let_def split: if_splits)

lemma extract_command_password_flag:
  "extract_command env archive into_dir password flat overwrite verbose = Inr command \<Longrightarrow>
     command ! 3 = ''-p'' @ (case password of None \<Rightarrow> DEL | Some p \<Rightarrow> p)
     \<and> (case password of None \<Rightarrow> DEL | Some p \<Rightarrow> p) \<noteq> []"
  by (auto simp: extract_command_def Let_def split: if_splits)

lemma invoked_call:
  "command \<in> set (invoked (case c of Inl e \<Rightarrow> raised e | Inr command \<Rightarrow> invoke env command))
     \<longleftrightarrow> c = Inr command"
  by (cases c) auto

text \<open>
  C9. A call of \<open>archive_test\<close> or \<open>archive_extract\<close> without a password behaves as the
  same call with the one-character password \<^verbatim>\<open>\x7f\<close>; \<open>archive_test\<close> without a
  password always reaches the child, with the flag \<^verbatim>\<open>-p\x7f\<close>; and every argument vector
  that \<open>archive_test\<close> or \<open>archive_extract\<close> hands to the child has, at position 3, the
  flag \<^verbatim>\<open>-p\<close> followed by a password that is not empty.
\<close>

theorem sentinel_password:
  "length DEL = 1
   \<and> archive_test env archive None verbose = archive_test env archive (Some DEL) verbose
   \<and> archive_extract env archive into_dir None flat overwrite verbose
       = archive_extract env archive into_dir (Some DEL) flat overwrite verbose
   \<and> invoked (archive_test env archive None verbose)
       = [[EXE_PATH env, ''t'', abspath env archive, ''-p'' @ DEL, ''-bb'' @ py_format verbose,
           ''-bt'']]
   \<and> (\<forall>command \<in> set (invoked (archive_test env archive password verbose)).
         command ! 3 = ''-p'' @ (case password of None \<Rightarrow> DEL | Some p \<Rightarrow> p)
         \<and> (case password of None \<Rightarrow> DEL | Some p \<Rightarrow> p) \<noteq> [])
   \<and> (\<forall>command \<in> set (invoked (archive_extract env archive into_dir password flat overwrite verbose)).
         command ! 3 = ''-p'' @ (case password of None \<Rightarrow> DEL | Some p \<Rightarrow> p)
         \<and> (case password of None \<Rightarrow> DEL | Some p \<Rightarrow> p) \<noteq> [])"
proof (intro conjI ballI)
  show "length DEL = 1"
    by (simp add: DEL_def)
  show "archive_test env archive None verbose = archive_test env archive (Some DEL) verbose"
    by (simp only: archive_test_def test_command_default)
  show "archive_extract env archive into_dir None flat overwrite verbose
       = archive_extract env archive into_dir (Some DEL) flat overwrite verbose"
    by (simp only: archive_extract_def extract_command_default)
  show "invoked (archive_test env archive None verbose)
       = [[EXE_PATH env, ''t'', abspath env archive, ''-p'' @ DEL, ''-bb'' @ py_format verbose,
           ''-bt'']]"
    by (simp add: archive_test_def test_command_None)
next
  fix command
  assume "command \<in> set (invoked (archive_test env archive password verbose))"
  then have c: "test_command env archive password verbose = Inr command"
    by (simp only: archive_test_def invoked_call)
  from test_command_password_flag [OF c]
  show "command ! 3 = ''-p'' @ (case password of None \<Rightarrow> DEL | Some p \<Rightarrow> p)"
    and "(case password of None \<Rightarrow> DEL | Some p \<Rightarrow> p) \<noteq> []"
    by simp_all
next
  fix command
  assume "command \<in> set (invoked (archive_extract env archive into_dir password flat overwrite verbose))"
  then have c: "extract_command env archive into_dir password flat overwrite verbose = Inr command"
    by (simp only: archive_extract_def invoked_call)
  from extract_command_password_flag [OF c]
  show "command ! 3 = ''-p'' @ (case password of None \<Rightarrow> DEL | Some p \<Rightarrow> p)"
    and "(case password of None \<Rightarrow> DEL | Some p \<Rightarrow> p) \<noteq> []"
    by simp_all
qed

theorem sentinel_password_witness:
  "invoked (archive_extract (host [] [win ''C:/work/x.7z''] NotStarted) ''x.7z'' None None False
      (PyBool True) (PyInt 3))
     = [[win ''C:/py7z/7-zip/x64/7z.exe'', ''x'', ''-o'' @ win ''C:/work'', [CHR ''-'', CHR ''p'', CHR 0x7F],
         ''-aoa'', ''-bb3'', ''-bt'', win ''C:/work/x.7z'']]
   \<and> [win ''C:/py7z/7-zip/x64/7z.exe'', ''x'', ''-o'' @ win ''C:/work'', [CHR ''-'', CHR ''p'', CHR 0x7F],
         ''-aoa'', ''-bb3'', ''-bt'', win ''C:/work/x.7z''] ! 3 = ''-p'' @ DEL"
proof -
  define env where "env = host [] [win ''C:/work/x.7z''] NotStarted"
  define command where "command =
    [win ''C:/py7z/7-zip/x64/7z.exe'', ''x'', ''-o'' @ win ''C:/work'', [CHR ''-'', CHR ''p'', CHR 0x7F],
     ''-aoa'', ''-bb3'', ''-bt'', win ''C:/work/x.7z'']"
  have inv: "invoked (archive_extract env ''x.7z'' None None False (PyBool True) (PyInt 3)) = [command]"
    unfolding env_def command_def by (simp add: sample_eval)
  then have "command \<in> set (invoked (archive_extract env ''x.7z'' None None False (PyBool True) (PyInt 3)))"
    by simp
  with sentinel_password [of env "''x.7z''" "PyInt 3" None False "PyBool True" None]
  have "command ! 3 = ''-p'' @ DEL"
    by simp
  with inv show ?thesis
    unfolding env_def command_def by simp
qed


section \<open>The destination of archive\_extract\<close>

text \<open>
  C5. Two of the three rejections hold: a destination whose resolved path has a
  reserved character in its basename, and a destination at which a regular file exists,
  both fail with an assertion error before a child is started.
\<close>

lemma extract_rejects_reserved_character:
  assumes "char \<in> set reserved"
    and "char \<in> set (basename env
           (abspath env (strip (case into_dir of None \<Rightarrow> ''.'' | Some d \<Rightarrow> d))))"
  shows "invoked (archive_extract env archive into_dir password flat overwrite verbose) = []
     \<and> (\<exists>msg. result (archive_extract env archive into_dir password flat overwrite verbose)
            = Inl (AssertionError msg))"
proof -
  from assms have "\<not> list_all (\<lambda>char. char \<notin> set (basename env
           (abspath env (strip (case into_dir of None \<Rightarrow> ''.'' | Some d \<Rightarrow> d))))) reserved"
    by (auto simp: list_all_iff)
  then show ?thesis
    by (simp add: archive_extract_def extract_command_def Let_def)
qed

lemma extract_rejects_existing_file:
  assumes "isfile env (abspath env (strip (case into_dir of None \<Rightarrow> ''.'' | Some d \<Rightarrow> d)))"
  shows "invoked (archive_extract env archive into_dir password flat overwrite verbose) = []
     \<and> (\<exists>msg. result (archive_extract env archive into_dir password flat overwrite verbose)
            = Inl (AssertionError msg))"
  using assms by (simp add: archive_extract_def extract_command_def Let_def)


text \<open>
  The third does not. The length check of line 189 is made on the result of
  \<^verbatim>\<open>os.path.abspath\<close>, and on a host where that result is never empty the check cannot
  fail:
\<close>

lemma extract_length_check_on_resolved_path:
  assumes "abspath env (strip (case into_dir of None \<Rightarrow> ''.'' | Some d \<Rightarrow> d)) \<noteq> []"
  shows "extract_command env archive into_dir password flat overwrite verbose
     \<noteq> Inl (AssertionError (utext ''output dir name must be at least one character long''))"
  using assms by (simp add: extract_command_def Let_def utext_def)


text \<open>
  C5, evaluated at the empty destination name. \<^verbatim>\<open>os.path.abspath('')\<close> is the current
  directory, so \<open>archive_extract\<close> with \<^verbatim>\<open>into_dir=''\<close> is not rejected: it starts the
  child with the flag \<^verbatim>\<open>-oC:\work\<close> and extracts into the current directory.
\<close>

theorem extract_empty_destination_accepted:
  "archive_extract (host [] [win ''C:/work/x.7z''] (Exited 0 (ascii ''Everything is Ok'')))
      ''x.7z'' (Some []) None False (PyBool True) (PyInt 3)
   = \<lparr>invoked = [[win ''C:/py7z/7-zip/x64/7z.exe'', ''x'', ''-o'' @ win ''C:/work'',
                    [CHR ''-'', CHR ''p'', CHR 0x7F], ''-aoa'', ''-bb3'', ''-bt'',
                    win ''C:/work/x.7z'']],
      result = Inr (utext ''Everything is Ok'')\<rparr>"
  by (simp add: sample_eval)



section \<open>Splitting the volume spec\<close>

text \<open>
  \<^verbatim>\<open>volumes.strip().split()\<close> yields the tokens of \<^verbatim>\<open>volumes\<close> itself: stripping does
  not change the whitespace-separated tokens.
\<close>

lemma split_from_spaces:
  "\<forall>c \<in> set ws. py_isspace c \<Longrightarrow> split_from cur ws = (if cur = [] then [] else [cur])"
  by (induction ws arbitrary: cur) auto

lemma split_from_trailing_spaces:
  "\<forall>c \<in> set ws. py_isspace c \<Longrightarrow> split_from cur (s @ ws) = split_from cur s"
  by (induction s arbitrary: cur) (auto simp: split_from_spaces)

lemma split_from_leading_spaces:
  "split_from [] (dropWhile py_isspace s) = split_from [] s"
  by (induction s) auto

lemma strip_trailing:
  "\<exists>ws. (\<forall>c \<in> set ws. py_isspace c) \<and> dropWhile py_isspace s = strip s @ ws"
proof -
  let ?t = "dropWhile py_isspace s"
  have "?t = rev (takeWhile py_isspace (rev ?t) @ dropWhile py_isspace (rev ?t))"
    by simp
  also have "\<dots> = strip s @ rev (takeWhile py_isspace (rev ?t))"
    by (simp only: rev_append strip_def)
  finally have "?t = strip s @ rev (takeWhile py_isspace (rev ?t))" .
  moreover have "\<forall>c \<in> set (rev (takeWhile py_isspace (rev ?t))). py_isspace c"
    by (auto dest: set_takeWhileD)
  ultimately show ?thesis
    by blast
qed

lemma split_strip: "split (strip s) = split s"
proof -
  from strip_trailing obtain ws where
    ws: "\<forall>c \<in> set ws. py_isspace c" and eq: "dropWhile py_isspace s = strip s @ ws"
    by blast
  have "split s = split_from [] (dropWhile py_isspace s)"
    by (simp only: split_def split_from_leading_spaces)
  also have "\<dots> = split_from [] (strip s)"
    unfolding eq by (rule split_from_trailing_spaces [OF ws])
  finally show ?thesis
    by (simp only: split_def)
qed


section \<open>The destination of archive\_create\<close>

text \<open>
  C6. For every call of \<open>archive_create\<close>: when the archive path is an existing
  directory, whatever \<open>overwrite\<close> is, and also when it is an existing file and
  \<open>overwrite\<close> is false, no child process is started and the call fails with a validation
  error: the \<open>ValueError\<close> of the basename check when that fails first, and otherwise the
  assertion error of line 59 or of line 62.
\<close>

theorem create_rejects_existing_destination:
  "(isdir env (abspath env archive) \<longrightarrow>
      invoked (archive_create env fs archive password encrypt_headers overwrite verbose volumes) = []
      \<and> ((\<exists>item_name.
            result (archive_create env fs archive password encrypt_headers overwrite verbose volumes)
              = Inl (ValueError item_name))
         \<or> result (archive_create env fs archive password encrypt_headers overwrite verbose volumes)
              = Inl (AssertionError (utext ''dir already exists at output path''))))
   \<and> (isfile env (abspath env archive) \<and> \<not> overwrite \<longrightarrow>
      invoked (archive_create env fs archive password encrypt_headers overwrite verbose volumes) = []
      \<and> ((\<exists>item_name.
            result (archive_create env fs archive password encrypt_headers overwrite verbose volumes)
              = Inl (ValueError item_name))
         \<or> result (archive_create env fs archive password encrypt_headers overwrite verbose volumes)
              = Inl (AssertionError (utext ''dir already exists at output path''))
         \<or> result (archive_create env fs archive password encrypt_headers overwrite verbose volumes)
              = Inl (AssertionError (utext ''file already exists at output path''))))"
proof (cases "\<forall>p \<in> set fs. \<forall>q \<in> set fs. basename env p = basename env q \<longrightarrow> p = q")
  case True
  show ?thesis
    unfolding archive_create_def create_command_unique [OF True]
    by simp
next
  case False
  from create_command_conflict [OF False] obtain item_name where
    "create_command env fs archive password encrypt_headers overwrite verbose volumes
       = Inl (ValueError item_name)"
    by blast
  then have r: "archive_create env fs archive password encrypt_headers overwrite verbose volumes
       = raised (ValueError item_name)"
    unfolding archive_create_def by simp
  show ?thesis
    unfolding r by simp
qed

theorem create_rejects_existing_destination_witness:
  "isdir (host [win ''C:/work/out''] [win ''C:/work/x.7z''] NotStarted)
      (abspath (host [win ''C:/work/out''] [win ''C:/work/x.7z''] NotStarted) ''out'')
   \<and> archive_create (host [win ''C:/work/out''] [win ''C:/work/x.7z''] NotStarted) [''a.txt'']
        ''out'' None False True (PyInt 3) None
      = \<lparr>invoked = [],
         result = Inl (AssertionError (utext ''dir already exists at output path''))\<rparr>
   \<and> isfile (host [win ''C:/work/out''] [win ''C:/work/x.7z''] NotStarted)
      (abspath (host [win ''C:/work/out''] [win ''C:/work/x.7z''] NotStarted) ''x.7z'')
   \<and> invoked (archive_create (host [win ''C:/work/out''] [win ''C:/work/x.7z''] NotStarted)
        [''a.txt''] ''x.7z'' None False False (PyInt 3) None) = []"
proof -
  define env where "env = host [win ''C:/work/out''] [win ''C:/work/x.7z''] NotStarted"
  have d: "isdir env (abspath env ''out'')"
    and f: "isfile env (abspath env ''x.7z'')"
    by (simp_all add: env_def host_def win_def nt_abspath_def has_drive_def)
  have e: "archive_create env [''a.txt''] ''out'' None False True (PyInt 3) None
      = \<lparr>invoked = [],
         result = Inl (AssertionError (utext ''dir already exists at output path''))\<rparr>"
    unfolding env_def by (simp add: sample_eval)
  from f create_rejects_existing_destination [of env "''x.7z''" "[''a.txt'']" None False False "PyInt 3" None]
  have "invoked (archive_create env [''a.txt''] ''x.7z'' None False False (PyInt 3) None) = []"
    by simp
  with d e f show ?thesis
    unfolding env_def by simp
qed



section \<open>The argument vector of archive\_create\<close>

text \<open>
  C4. For every call of \<open>archive_create\<close> that passes all checks (unique basenames, no
  directory at the archive path, no file there unless \<open>overwrite\<close> is set, a volume spec
  that is not the empty string, a password that is not empty and has no double quote),
  the argument vector given to the child is, in order: the executable, \<^verbatim>\<open>a\<close>, the
  resolved archive path, \<^verbatim>\<open>-t7z\<close>, \<^verbatim>\<open>-m0=lzma2\<close>, \<^verbatim>\<open>-mx=9\<close>, the verbosity flag, \<^verbatim>\<open>-bt\<close>;
  then \<^verbatim>\<open>-aoa\<close> exactly when \<open>overwrite\<close> is set; then one \<^verbatim>\<open>-v\<close> flag for each
  whitespace-separated token of the volume spec when one is given; then, exactly when
  a password is given, the password flag, followed by \<^verbatim>\<open>-mhe\<close> when header encryption is
  asked for; and last the resolved input paths.
\<close>

theorem create_argument_vector:
  assumes "\<forall>p \<in> set fs. \<forall>q \<in> set fs. basename env p = basename env q \<longrightarrow> p = q"
    and "\<not> isdir env (abspath env archive)"
    and "overwrite \<or> \<not> isfile env (abspath env archive)"
    and "volumes \<noteq> Some []"
    and "\<forall>p. password = Some p \<longrightarrow> p \<noteq> [] \<and> CHR 0x22 \<notin> set p"
  shows "invoked (archive_create env fs archive password encrypt_headers overwrite verbose volumes) =
     [[EXE_PATH env, ''a'', abspath env archive, ''-t7z'', ''-m0=lzma2'', ''-mx=9'',
       ''-bb'' @ py_format verbose, ''-bt'']
      @ (if overwrite then [''-aoa''] else [])
      @ (case volumes of None \<Rightarrow> [] | Some v \<Rightarrow> map (\<lambda>size. ''-v'' @ size) (split v))
      @ (case password of
           None \<Rightarrow> []
         | Some p \<Rightarrow> [''-p'' @ p] @ (if encrypt_headers then [''-mhe''] else []))
      @ map (abspath env) fs]"
proof -
  have v: "add_volumes command volumes
      = Inr (command @ (case volumes of None \<Rightarrow> [] | Some v \<Rightarrow> map (\<lambda>size. ''-v'' @ size) (split v)))"
    for command
    using assms(4) by (cases volumes) (simp_all add: add_volumes_def split_strip)
  have p: "add_password command password encrypt_headers
      = Inr (command @ (case password of
           None \<Rightarrow> []
         | Some p \<Rightarrow> [''-p'' @ p] @ (if encrypt_headers then [''-mhe''] else [])))"
    for command
    using assms(5) by (cases password) (simp_all add: add_password_def)
  show ?thesis
    unfolding archive_create_def create_command_unique [OF assms(1)] v p
    using assms(2,3) by auto
qed

theorem create_argument_vector_witness:
  "invoked (archive_create (host [] [] NotStarted) [win ''a.txt'', win ''d/b.txt''] ''x.7z''
      (Some ''pw'') True False (PyInt 3) (Some '' 10k 2m ''))
   = [[win ''C:/py7z/7-zip/x64/7z.exe'', ''a'', win ''C:/work/x.7z'', ''-t7z'', ''-m0=lzma2'',
       ''-mx=9'', ''-bb3'', ''-bt'', ''-v10k'', ''-v2m'', ''-ppw'', ''-mhe'',
       win ''C:/work/a.txt'', win ''C:/work/d/b.txt'']]"
proof -
  define env where "env = host [] [] NotStarted"
  define fs where "fs = [win ''a.txt'', win ''d/b.txt'']"
  have 1: "\<forall>p \<in> set fs. \<forall>q \<in> set fs. basename env p = basename env q \<longrightarrow> p = q"
    by (simp add: env_def fs_def host_def win_def nt_basename_def has_drive_def)
  have arch: "abspath env ''x.7z'' = win ''C:/work/x.7z''"
    by (simp add: env_def host_def win_def nt_abspath_def has_drive_def)
  have 2: "\<not> isdir env (abspath env ''x.7z'')"
    and 3: "False \<or> \<not> isfile env (abspath env ''x.7z'')"
    by (simp_all add: env_def host_def)
  have 4: "Some '' 10k 2m '' \<noteq> Some []"
    by simp
  have 5: "\<forall>p. Some ''pw'' = Some p \<longrightarrow> p \<noteq> [] \<and> CHR 0x22 \<notin> set p"
    by auto
  have paths: "map (abspath env) fs = [win ''C:/work/a.txt'', win ''C:/work/d/b.txt'']"
    by (simp add: env_def fs_def host_def win_def nt_abspath_def has_drive_def)
  have exe: "EXE_PATH env = win ''C:/py7z/7-zip/x64/7z.exe''"
    by (simp add: env_def host_def)
  have tokens: "split '' 10k 2m '' = [''10k'', ''2m'']"
    by (simp add: split_def py_isspace_def)
  have "invoked (archive_create env fs ''x.7z'' (Some ''pw'') True False (PyInt 3)
            (Some '' 10k 2m ''))
     = [[win ''C:/py7z/7-zip/x64/7z.exe'', ''a'', win ''C:/work/x.7z'', ''-t7z'', ''-m0=lzma2'',
         ''-mx=9'', ''-bb3'', ''-bt'', ''-v10k'', ''-v2m'', ''-ppw'', ''-mhe'',
         win ''C:/work/a.txt'', win ''C:/work/d/b.txt'']]"
    unfolding create_argument_vector [OF 1 2 3 4 5, of True "PyInt 3"] arch paths exe
    by (simp add: tokens str_int_def str_nat.simps)
  then show ?thesis
    unfolding env_def fs_def .
qed


section \<open>The verbosity parameter\<close>















end
